theory Spec2Isabelle
  imports Main "HOL-Library.Char_ord" "HOL-Library.List_Lexorder"
begin

section \<open>GitHubArtifactDatabase: a read-only example database loaded from a CI artifact\<close>

text \<open>
  A shallow embedding of \<^verbatim>\<open>hypothesis/extra/github_actions.py\<close>.

  The class talks to three collaborators that are not part of the file: the HTTP
  library (\<^verbatim>\<open>requests\<close>), the archive routine (\<^verbatim>\<open>shutil.unpack_archive\<close>) and the
  directory-backed store it inherits from (\<^verbatim>\<open>DirectoryBasedExampleDatabase\<close>). They are
  fields of the record \<open>env\<close> below, together with the size of the write buffer of a
  file object, so every theorem holds for any behaviour of the remote service, of the
  archive routine and of the local store, and for any buffer size.

  Python strings are modelled as \<open>string\<close>; with \<open>Char_ord\<close> and \<open>List_Lexorder\<close> the
  order on \<open>string\<close> is the lexicographic one on character codes, which is how Python
  compares \<^verbatim>\<open>str\<close> values.
\<close>

subsection \<open>Exceptions\<close>

datatype exn =
    RuntimeError string
  | IndexError string
  | KeyError string
  | AttributeError string
  | JSONDecodeError
  | ConnectionError
  | HTTPError int
  | Timeout
  | ChunkedEncodingError
  | ReadError
  | BadZipFile

text \<open>The Python class of an exception value: what an \<^verbatim>\<open>except\<close> clause can tell apart.\<close>

fun exn_type :: "exn \<Rightarrow> string" where
  "exn_type (RuntimeError m) = ''RuntimeError''"
| "exn_type (IndexError m) = ''IndexError''"
| "exn_type (KeyError m) = ''KeyError''"
| "exn_type (AttributeError m) = ''AttributeError''"
| "exn_type JSONDecodeError = ''JSONDecodeError''"
| "exn_type ConnectionError = ''ConnectionError''"
| "exn_type (HTTPError c) = ''HTTPError''"
| "exn_type Timeout = ''Timeout''"
| "exn_type ChunkedEncodingError = ''ChunkedEncodingError''"
| "exn_type ReadError = ''ReadError''"
| "exn_type BadZipFile = ''BadZipFile''"

subsection \<open>Data\<close>

type_synonym bytes = string
type_synonym path = string

text \<open>
  One element of the \<^verbatim>\<open>"artifacts"\<close> array of the listing response, with the three
  keys the code reads. \<open>created_at\<close> is the raw JSON string.
\<close>

record artifact =
  name :: string
  created_at :: string
  archive_download_url :: string

record request =
  url :: string
  headers :: "(string \<times> string) list"
  stream :: bool
  allow_redirects :: bool

text \<open>
  What \<^verbatim>\<open>res.json()\<close> finds: a body that is not JSON, or an object that may or may not
  have the key \<^verbatim>\<open>"artifacts"\<close>.
\<close>

datatype json_body = NotJson | JsonObject "artifact list option"

text \<open>
  A response. With \<^verbatim>\<open>stream=True\<close> the body is read when \<^verbatim>\<open>.content\<close> is accessed,
  which can fail after the status line was received; \<open>content\<close> is therefore a result.
\<close>

record response =
  status_code :: int
  json :: json_body
  content :: "exn + bytes"

type_synonym directory = "(string \<times> bytes) list"
type_synonym filesystem = "path \<rightharpoonup> directory"

text \<open>
  The world outside the object: the requests issued so far, the directories of the
  filesystem, and the temporary files alive. A temporary file has a name, the bytes
  that have reached the disk, and the bytes still held in the write buffer of the open
  file object.
\<close>

record world =
  net_log :: "request list"
  dirs :: filesystem
  temp_files :: "(nat \<times> bytes \<times> bytes) list"

text \<open>
  The collaborators. \<open>requests_get\<close> is \<^verbatim>\<open>requests.get\<close>: it sees the requests made before
  (so the service may answer differently from one call to the next) and either raises
  or returns a response. \<open>unpack_archive\<close> is \<^verbatim>\<open>shutil.unpack_archive(_, _, "zip")\<close>: it
  may raise, and returns the filesystem as it has left it in both cases.
  \<open>super_fetch\<close> is the \<^verbatim>\<open>fetch\<close> of the inherited directory store, a read of the
  directory it is rooted at. \<open>buffer_size\<close> is the size of the write buffer that
  \<^verbatim>\<open>open\<close> gives a binary file (\<^verbatim>\<open>io.DEFAULT_BUFFER_SIZE\<close> or the block size of the device).
\<close>

record env =
  requests_get :: "request list \<Rightarrow> request \<Rightarrow> exn + response"
  unpack_archive :: "bytes \<Rightarrow> path \<Rightarrow> filesystem \<Rightarrow> exn option \<times> filesystem"
  super_fetch :: "path \<Rightarrow> filesystem \<Rightarrow> bytes \<Rightarrow> bytes list"
  buffer_size :: nat

text \<open>
  The attributes of a \<^verbatim>\<open>GitHubArtifactDatabase\<close>. \<open>artifact_downloaded\<close> is the attribute
  \<^verbatim>\<open>_artifact_downloaded\<close>.
\<close>

record db =
  owner :: string
  repo :: string
  artifact_name :: string
  path :: path
  token :: "string option"
  artifact_downloaded :: bool
  store_root :: "path option"

text \<open>
  Modelled from the spec: the inherited store \<^verbatim>\<open>DirectoryBasedExampleDatabase\<close> is not in
  the sources at hand; the spec describes it as "constructible from a root directory
  path". \<open>store_root\<close> is the root the inherited part of the object was initialised
  with, \<open>None\<close> as long as \<^verbatim>\<open>super().__init__\<close> has not run.
\<close>

definition super_init :: "path \<Rightarrow> db \<Rightarrow> db" where
  "super_init p st = st\<lparr>store_root := Some p\<rparr>"

subsection \<open>Construction\<close>

definition default_artifact_name :: string where
  "default_artifact_name = ''hypofuzz-example-db''"

text \<open>\<^verbatim>\<open>__init__\<close>; \<open>getenv\<close> is the process environment at that moment.\<close>

definition init :: "(string \<Rightarrow> string option) \<Rightarrow> string \<Rightarrow> string \<Rightarrow> string \<Rightarrow> path \<Rightarrow> db" where
  "init getenv own rep art p =
     \<lparr>owner = own, repo = rep, artifact_name = art, path = p,
      token = getenv ''GITHUB_TOKEN'',
      artifact_downloaded = False,
      store_root = None\<rparr>"

subsection \<open>Requests\<close>

text \<open>How an f-string renders the token: \<^verbatim>\<open>None\<close> is rendered as the text \<^verbatim>\<open>None\<close>.\<close>

fun format_token :: "string option \<Rightarrow> string" where
  "format_token None = ''None''"
| "format_token (Some t) = t"

definition listing_request :: "db \<Rightarrow> request" where
  "listing_request st =
     \<lparr>url = ''https://api.github.com/repos/'' @ owner st @ ''/'' @ repo st @ ''/actions/artifacts'',
      headers = [(''Accept'', ''application/vnd.github+json''),
                 (''X-GitHub-Api-Version'', ''2022-11-28 ''),
                 (''Authorization'', ''Bearer '' @ format_token (token st))],
      stream = False,
      allow_redirects = True\<rparr>"

definition download_request :: "db \<Rightarrow> artifact \<Rightarrow> request" where
  "download_request st a =
     \<lparr>url = archive_download_url a,
      headers = [(''Accept'', ''application/vnd.github+json''),
                 (''X-GitHub-Api-Version'', ''2022-11-28''),
                 (''Authorization'', ''Bearer '' @ format_token (token st))],
      stream = True,
      allow_redirects = True\<rparr>"

text \<open>\<^verbatim>\<open>requests.get\<close>: the request goes out and is answered.\<close>

definition http_get :: "env \<Rightarrow> request \<Rightarrow> world \<Rightarrow> (exn + response) \<times> world" where
  "http_get ev rq w = (requests_get ev (net_log w) rq, w\<lparr>net_log := net_log w @ [rq]\<rparr>)"

text \<open>
  \<^verbatim>\<open>Response.raise_for_status\<close> of the HTTP library: it raises \<^verbatim>\<open>HTTPError\<close> for the
  client and server error statuses, 400 to 599, and returns for every other status.
\<close>

definition raise_for_status :: "response \<Rightarrow> exn + unit" where
  "raise_for_status res =
     (if 400 \<le> status_code res \<and> status_code res < 600
      then Inl (HTTPError (status_code res)) else Inr ())"

text \<open>\<^verbatim>\<open>res.json()["artifacts"]\<close>\<close>

definition json_artifacts :: "response \<Rightarrow> exn + artifact list" where
  "json_artifacts res =
     (case json res of
        NotJson \<Rightarrow> Inl JSONDecodeError
      | JsonObject None \<Rightarrow> Inl (KeyError ''artifacts'')
      | JsonObject (Some xs) \<Rightarrow> Inr xs)"

subsection \<open>The listing: the first \<^verbatim>\<open>try\<close> block and its handlers\<close>

definition list_artifacts :: "env \<Rightarrow> db \<Rightarrow> world \<Rightarrow> (exn + artifact list) \<times> world" where
  "list_artifacts ev st w =
     (case http_get ev (listing_request st) w of
        (Inl e, w') \<Rightarrow> (Inl e, w')
      | (Inr res, w') \<Rightarrow>
          (case raise_for_status res of
             Inl e \<Rightarrow> (Inl e, w')
           | Inr u \<Rightarrow> (json_artifacts res, w')))"

definition listing_connect_msg :: string where
  "listing_connect_msg = ''Could not connect to GitHub to get the latest artifact.''"

definition http_error_msg :: string where
  "http_error_msg =
     ''Could not get the latest artifact from GitHub. '' @
     ''Check that the repository exists and that you've provided a valid token (GITHUB_TOKEN).''"

fun listing_handler :: "exn \<Rightarrow> exn" where
  "listing_handler ConnectionError = RuntimeError listing_connect_msg"
| "listing_handler (HTTPError c) = RuntimeError http_error_msg"
| "listing_handler e = e"

subsection \<open>Selection\<close>

text \<open>
  \<^verbatim>\<open>sorted(filter(lambda a: a["name"] == self.artifact_name, artifacts),
         key=lambda a: a["created_at"])[-1]\<close>.
  \<^verbatim>\<open>sorted\<close> is a stable sort on the keys, as \<open>sort_key\<close> is; \<^verbatim>\<open>[-1]\<close> on an
  empty list raises \<^verbatim>\<open>IndexError\<close>.
\<close>

definition matching :: "string \<Rightarrow> artifact list \<Rightarrow> artifact list" where
  "matching n artifacts = filter (\<lambda>a. name a = n) artifacts"

definition select_artifact :: "string \<Rightarrow> artifact list \<Rightarrow> exn + artifact" where
  "select_artifact n artifacts =
     (let xs = sort_key created_at (matching n artifacts)
      in if xs = [] then Inl (IndexError ''list index out of range'') else Inr (last xs))"

subsection \<open>The temporary file\<close>

text \<open>
  \<^verbatim>\<open>tempfile.NamedTemporaryFile()\<close> makes an empty file under a name no other file has,
  open for buffered binary writing, and the \<^verbatim>\<open>with\<close> block closes and deletes it on every
  way out.

  \<^verbatim>\<open>f.write(data)\<close> on the buffered file object: data that fits into the free part of the
  buffer is only copied there; otherwise the buffer is written out first, and then the
  data is written through to the file when it is longer than the buffer and copied into
  the emptied buffer when it is not. The code never flushes, and \<^verbatim>\<open>shutil.unpack_archive\<close>
  opens the file again by its name (\<open>temp_read\<close>): it finds the bytes on the disk, not
  those in the buffer. A write to the file is taken to write all the bytes it is given.
\<close>

definition fresh_name :: "(nat \<times> bytes \<times> bytes) list \<Rightarrow> nat" where
  "fresh_name fs = Suc (foldr max (map fst fs) 0)"

definition NamedTemporaryFile :: "world \<Rightarrow> nat \<times> world" where
  "NamedTemporaryFile w =
     (fresh_name (temp_files w),
      w\<lparr>temp_files := (fresh_name (temp_files w), [], []) # temp_files w\<rparr>)"

definition buffered_write :: "nat \<Rightarrow> bytes \<Rightarrow> bytes \<times> bytes \<Rightarrow> bytes \<times> bytes" where
  "buffered_write bs data file =
     (case file of
        (disk, pending) \<Rightarrow>
          if length data \<le> bs - length pending then (disk, pending @ data)
          else if length data \<le> bs then (disk @ pending, data)
          else (disk @ pending @ data, []))"

definition temp_write :: "nat \<Rightarrow> nat \<Rightarrow> bytes \<Rightarrow> world \<Rightarrow> world" where
  "temp_write bs f data w =
     w\<lparr>temp_files :=
         map (\<lambda>(n, file). if n = f then (n, buffered_write bs data file) else (n, file))
           (temp_files w)\<rparr>"

definition temp_read :: "nat \<Rightarrow> world \<Rightarrow> bytes" where
  "temp_read f w = (case map_of (temp_files w) f of None \<Rightarrow> [] | Some (disk, pending) \<Rightarrow> disk)"

definition temp_close :: "nat \<Rightarrow> world \<Rightarrow> world" where
  "temp_close f w = w\<lparr>temp_files := filter (\<lambda>(n, file). n \<noteq> f) (temp_files w)\<rparr>"

subsection \<open>Download and extraction: the body of the \<^verbatim>\<open>with\<close> block\<close>

definition download_connect_msg :: string where
  "download_connect_msg = ''Could not connect to GitHub to download the artifact.''"

fun download_handler :: "exn \<Rightarrow> exn" where
  "download_handler ConnectionError = RuntimeError download_connect_msg"
| "download_handler (HTTPError c) = RuntimeError http_error_msg"
| "download_handler e = e"

text \<open>The second \<^verbatim>\<open>try\<close> block: the request and \<^verbatim>\<open>raise_for_status\<close>.\<close>

definition download :: "env \<Rightarrow> db \<Rightarrow> artifact \<Rightarrow> world \<Rightarrow> (exn + response) \<times> world" where
  "download ev st a w =
     (case http_get ev (download_request st a) w of
        (Inl e, w') \<Rightarrow> (Inl e, w')
      | (Inr req, w') \<Rightarrow>
          (case raise_for_status req of
             Inl e \<Rightarrow> (Inl e, w')
           | Inr u \<Rightarrow> (Inr req, w')))"

text \<open>
  Modelled from the spec: \<^verbatim>\<open>mkdir_p\<close> of \<^verbatim>\<open>hypothesis.configuration\<close> is not in the sources
  at hand; the spec says "ensure the local backing directory exists (create recursively,
  idempotent, no error if already present)".
\<close>

definition mkdir_p :: "path \<Rightarrow> world \<Rightarrow> world" where
  "mkdir_p p w = (case dirs w p of None \<Rightarrow> w\<lparr>dirs := (dirs w)(p \<mapsto> [])\<rparr> | Some d \<Rightarrow> w)"

definition unpack :: "env \<Rightarrow> nat \<Rightarrow> path \<Rightarrow> world \<Rightarrow> (exn + unit) \<times> world" where
  "unpack ev f p w =
     (case unpack_archive ev (temp_read f w) p (dirs w) of
        (Some e, d) \<Rightarrow> (Inl e, w\<lparr>dirs := d\<rparr>)
      | (None, d) \<Rightarrow> (Inr (), w\<lparr>dirs := d\<rparr>))"

definition with_body :: "env \<Rightarrow> db \<Rightarrow> artifact \<Rightarrow> nat \<Rightarrow> world \<Rightarrow> (exn + unit) \<times> world" where
  "with_body ev st a f w =
     (case download ev st a w of
        (Inl e, w1) \<Rightarrow> (Inl (download_handler e), w1)
      | (Inr req, w1) \<Rightarrow>
          (case content req of
             Inl e \<Rightarrow> (Inl e, w1)
           | Inr body \<Rightarrow>
               unpack ev f (path st)
                 (mkdir_p (path st) (temp_write (buffer_size ev) f body w1))))"

subsection \<open>The operations\<close>

text \<open>
  \<^verbatim>\<open>_fetch_artifact\<close>. The result is the exception raised or \<open>()\<close>, with the object and
  the world as the call leaves them.
\<close>

definition fetch_artifact :: "env \<Rightarrow> db \<Rightarrow> world \<Rightarrow> (exn + unit) \<times> db \<times> world" where
  "fetch_artifact ev st w =
     (if artifact_downloaded st then (Inr (), st, w)
      else
        (case list_artifacts ev st w of
           (Inl e, w1) \<Rightarrow> (Inl (listing_handler e), st, w1)
         | (Inr artifacts, w1) \<Rightarrow>
             (case select_artifact (artifact_name st) artifacts of
                Inl e \<Rightarrow> (Inl e, st, w1)
              | Inr a \<Rightarrow>
                  (case NamedTemporaryFile w1 of
                     (f, w2) \<Rightarrow>
                       (case with_body ev st a f w2 of
                          (Inl e, w3) \<Rightarrow> (Inl e, st, temp_close f w3)
                        | (Inr u, w3) \<Rightarrow>
                            (Inr (), (super_init (path st) st)\<lparr>artifact_downloaded := True\<rparr>,
                             temp_close f w3))))))"

text \<open>
  \<^verbatim>\<open>fetch\<close>: materialise the artifact, then delegate to the inherited store. The
  inherited \<^verbatim>\<open>fetch\<close> needs the attributes \<^verbatim>\<open>super().__init__\<close> sets.
\<close>

definition fetch :: "env \<Rightarrow> db \<Rightarrow> world \<Rightarrow> bytes \<Rightarrow> (exn + bytes list) \<times> db \<times> world" where
  "fetch ev st w key =
     (case fetch_artifact ev st w of
        (Inl e, st', w') \<Rightarrow> (Inl e, st', w')
      | (Inr u, st', w') \<Rightarrow>
          (case store_root st' of
             None \<Rightarrow> (Inl (AttributeError ''keypaths''), st', w')
           | Some root \<Rightarrow> (Inr (super_fetch ev root (dirs w') key), st', w')))"

definition read_only_msg :: string where
  "read_only_msg =
     ''This database is read-only. Please wrap this class with ReadOnlyDatabase, '' @
     ''i.e. ReadOnlyDatabase(GitHubArtifactsDatabase(...)).''"

definition save :: "db \<Rightarrow> world \<Rightarrow> bytes \<Rightarrow> bytes \<Rightarrow> (exn + unit) \<times> db \<times> world" where
  "save st w key val = (Inl (RuntimeError read_only_msg), st, w)"

definition move :: "db \<Rightarrow> world \<Rightarrow> bytes \<Rightarrow> bytes \<Rightarrow> (exn + unit) \<times> db \<times> world" where
  "move st w key val = (Inl (RuntimeError read_only_msg), st, w)"

definition delete :: "db \<Rightarrow> world \<Rightarrow> bytes \<Rightarrow> bytes \<Rightarrow> (exn + unit) \<times> db \<times> world" where
  "delete st w key val = (Inl (RuntimeError read_only_msg), st, w)"

subsection \<open>Sequences of calls\<close>

datatype call = Fetch bytes | Save bytes bytes | Move bytes bytes | Delete bytes bytes

datatype outcome = Raised exn | Values "bytes list" | Returned

fun to_outcome :: "exn + unit \<Rightarrow> outcome" where
  "to_outcome (Inl e) = Raised e"
| "to_outcome (Inr u) = Returned"

fun do_call :: "env \<Rightarrow> call \<Rightarrow> db \<Rightarrow> world \<Rightarrow> outcome \<times> db \<times> world" where
  "do_call ev (Fetch k) st w =
     (case fetch ev st w k of
        (Inl e, st', w') \<Rightarrow> (Raised e, st', w')
      | (Inr vs, st', w') \<Rightarrow> (Values vs, st', w'))"
| "do_call ev (Save k v) st w = (case save st w k v of (r, st', w') \<Rightarrow> (to_outcome r, st', w'))"
| "do_call ev (Move k v) st w = (case move st w k v of (r, st', w') \<Rightarrow> (to_outcome r, st', w'))"
| "do_call ev (Delete k v) st w = (case delete st w k v of (r, st', w') \<Rightarrow> (to_outcome r, st', w'))"

text \<open>A caller that catches every exception and goes on with the next call.\<close>

fun run :: "env \<Rightarrow> call list \<Rightarrow> db \<Rightarrow> world \<Rightarrow> outcome list \<times> db \<times> world" where
  "run ev [] st w = ([], st, w)"
| "run ev (c # cs) st w =
     (case do_call ev c st w of
        (r, st', w') \<Rightarrow> (case run ev cs st' w' of (rs, st'', w'') \<Rightarrow> (r # rs, st'', w'')))"

subsection \<open>The invariant of the object\<close>

text \<open>Once the flag is set, the inherited store is rooted at \<open>path\<close>.\<close>

definition consistent :: "db \<Rightarrow> bool" where
  "consistent st = (artifact_downloaded st \<longrightarrow> store_root st = Some (path st))"

subsection \<open>A concrete service, archive routine and store\<close>

text \<open>
  A small instance of the collaborators, for evaluating the operations on concrete
  inputs. The archive routine refuses, before it writes, what does not start with the zip
  signature \<^verbatim>\<open>PK\<close>; on an archive that starts with \<^verbatim>\<open>PK-truncated\<close> it fails after it has
  written the beginning of the entry; any other archive is unpacked into one entry. The
  write buffer has 131072 bytes, and the two archives are longer than that.
\<close>

definition demo_archive :: bytes where
  "demo_archive = ''PK-archive'' @ replicate 200000 (CHR ''x'')"

definition truncated_archive :: bytes where
  "truncated_archive = ''PK-truncated'' @ replicate 200000 (CHR ''x'')"

definition demo_artifacts :: "artifact list" where
  "demo_artifacts =
     [\<lparr>name = ''db'', created_at = ''2023-05-01T10:00:00Z'',
       archive_download_url = ''https://example.org/1.zip''\<rparr>,
      \<lparr>name = ''db'', created_at = ''2023-05-02T10:00:00Z'',
       archive_download_url = ''https://example.org/2.zip''\<rparr>,
      \<lparr>name = ''other'', created_at = ''2023-05-03T10:00:00Z'',
       archive_download_url = ''https://example.org/3.zip''\<rparr>]"

definition demo_unzip :: "bytes \<Rightarrow> path \<Rightarrow> filesystem \<Rightarrow> exn option \<times> filesystem" where
  "demo_unzip data p fs =
     (if take 2 data \<noteq> ''PK'' then (Some ReadError, fs)
      else if take 12 data = ''PK-truncated''
        then (Some BadZipFile, fs(p \<mapsto> [(''entry'', ''PK'')]))
      else (None, fs(p \<mapsto> [(''entry'', data)])))"

definition demo_read :: "path \<Rightarrow> filesystem \<Rightarrow> bytes \<Rightarrow> bytes list" where
  "demo_read root fs key =
     (case fs root of None \<Rightarrow> [] | Some d \<Rightarrow> map snd (filter (\<lambda>(n, c). n = key) d))"

definition demo_env :: "(request list \<Rightarrow> request \<Rightarrow> exn + response) \<Rightarrow> env" where
  "demo_env service =
     \<lparr>requests_get = service, unpack_archive = demo_unzip, super_fetch = demo_read,
      buffer_size = 131072\<rparr>"

definition listing_ok :: "artifact list \<Rightarrow> response" where
  "listing_ok xs = \<lparr>status_code = 200, json = JsonObject (Some xs), content = Inr []\<rparr>"

definition archive_ok :: "bytes \<Rightarrow> response" where
  "archive_ok data = \<lparr>status_code = 200, json = NotJson, content = Inr data\<rparr>"

definition status_only :: "int \<Rightarrow> response" where
  "status_only c = \<lparr>status_code = c, json = NotJson, content = Inr []\<rparr>"

text \<open>
  \<open>good_service\<close> answers both requests with success; \<open>flaky_service\<close> fails to connect
  on the very first request and behaves like \<open>good_service\<close> afterwards.
\<close>

definition good_service :: "request list \<Rightarrow> request \<Rightarrow> exn + response" where
  "good_service log rq =
     (if stream rq then Inr (archive_ok demo_archive) else Inr (listing_ok demo_artifacts))"

definition flaky_service :: "request list \<Rightarrow> request \<Rightarrow> exn + response" where
  "flaky_service log rq = (if log = [] then Inl ConnectionError else good_service log rq)"

definition demo_db :: db where
  "demo_db = init (\<lambda>v. None) ''user'' ''repo'' ''db'' ''ci''"

definition demo_world :: world where
  "demo_world = \<lparr>net_log = [], dirs = Map.empty, temp_files = []\<rparr>"

text \<open>
  A service that gives one fixed answer to the listing request and one to the (streamed)
  download request; the descriptors and the states of object and world that the
  evaluations below pass through.
\<close>

definition staged_service ::
  "(exn + response) \<Rightarrow> (exn + response) \<Rightarrow> request list \<Rightarrow> request \<Rightarrow> exn + response" where
  "staged_service listing archive log rq = (if stream rq then archive else listing)"

definition other_artifact :: artifact where
  "other_artifact =
     \<lparr>name = ''other'', created_at = ''2023-05-03T10:00:00Z'',
      archive_download_url = ''https://example.org/3.zip''\<rparr>"

definition newest_db_artifact :: artifact where
  "newest_db_artifact =
     \<lparr>name = ''db'', created_at = ''2023-05-02T10:00:00Z'',
      archive_download_url = ''https://example.org/2.zip''\<rparr>"

definition demo_db_loaded :: db where
  "demo_db_loaded = demo_db\<lparr>artifact_downloaded := True, store_root := Some ''ci''\<rparr>"

definition demo_world_listed :: world where
  "demo_world_listed = demo_world\<lparr>net_log := [listing_request demo_db]\<rparr>"

definition demo_world_loaded :: world where
  "demo_world_loaded =
     \<lparr>net_log = [listing_request demo_db, listing_request demo_db,
                 download_request demo_db newest_db_artifact],
      dirs = [''ci'' \<mapsto> [(''entry'', demo_archive)]],
      temp_files = []\<rparr>"




definition tied_artifacts :: "artifact list" where
  "tied_artifacts =
     [\<lparr>name = ''db'', created_at = ''2023-05-02T10:00:00Z'', archive_download_url = ''first''\<rparr>,
      \<lparr>name = ''db'', created_at = ''2023-05-01T10:00:00Z'', archive_download_url = ''older''\<rparr>,
      \<lparr>name = ''db'', created_at = ''2023-05-02T10:00:00Z'', archive_download_url = ''second''\<rparr>,
      \<lparr>name = ''other'', created_at = ''2023-05-02T10:00:00Z'', archive_download_url = ''third''\<rparr>]"

definition offset_artifacts :: "artifact list" where
  "offset_artifacts =
     [\<lparr>name = ''db'', created_at = ''2023-01-01T00:30:00+02:00'', archive_download_url = ''a''\<rparr>,
      \<lparr>name = ''db'', created_at = ''2022-12-31T23:00:00Z'', archive_download_url = ''b''\<rparr>]"

definition demo_world_refused :: world where
  "demo_world_refused =
     demo_world\<lparr>net_log := [listing_request demo_db, download_request demo_db newest_db_artifact]\<rparr>"

section \<open>Auxiliary facts\<close>

lemmas model_defs =
  fetch_def fetch_artifact_def list_artifacts_def http_get_def raise_for_status_def
  json_artifacts_def select_artifact_def matching_def NamedTemporaryFile_def fresh_name_def
  temp_write_def buffered_write_def temp_read_def temp_close_def download_def mkdir_p_def unpack_def with_body_def
  super_init_def init_def listing_request_def download_request_def
  save_def move_def delete_def

lemmas demo_defs =
  demo_artifacts_def demo_unzip_def demo_read_def demo_env_def listing_ok_def archive_ok_def
  status_only_def good_service_def staged_service_def demo_db_def demo_world_def
  newest_db_artifact_def

subsection \<open>Sorting\<close>

lemma sorted_map_le_last:
  "sorted (map f ys) \<Longrightarrow> y \<in> set ys \<Longrightarrow> f y \<le> f (last ys)"
  by (induction ys) auto

lemma last_filter_keeps:
  "ys \<noteq> [] \<Longrightarrow> P (last ys) \<Longrightarrow> last (filter P ys) = last ys"
  by (induction ys rule: rev_induct) auto

lemma last_sort_key_mem:
  "xs \<noteq> [] \<Longrightarrow> last (sort_key f xs) \<in> set xs"
proof -
  assume "xs \<noteq> []"
  then have "sort_key f xs \<noteq> []" by (metis length_sort length_0_conv)
  then have "last (sort_key f xs) \<in> set (sort_key f xs)" by (rule last_in_set)
  then show ?thesis by simp
qed

lemma last_sort_key_greatest:
  "b \<in> set xs \<Longrightarrow> f b \<le> f (last (sort_key f xs))"
  using sorted_map_le_last [of f "sort_key f xs" b] by (simp add: sorted_sort_key)

lemma last_sort_key_stable:
  assumes "xs \<noteq> []"
  shows "last (sort_key f xs) = last (filter (\<lambda>y. f y = f (last (sort_key f xs))) xs)"
proof -
  let ?ys = "sort_key f xs"
  let ?k = "f (last ?ys)"
  from assms have ne: "?ys \<noteq> []" by (metis length_sort length_0_conv)
  have "last (filter (\<lambda>y. f y = ?k) ?ys) = last ?ys"
    using ne by (rule last_filter_keeps) simp
  moreover have "filter (\<lambda>y. f y = ?k) ?ys = filter (\<lambda>y. f y = ?k) xs"
    by (rule sort_key_stable)
  ultimately show ?thesis by simp
qed

lemma fresh_name_above: "(n, c) \<in> set fs \<Longrightarrow> n < fresh_name fs"
  unfolding fresh_name_def by (induction fs) auto

lemma filter_fresh_name: "filter (\<lambda>(n, c). n \<noteq> fresh_name fs) fs = fs"
  by (rule filter_True) (auto dest: fresh_name_above)

lemma filter_after_write:
  "filter (\<lambda>(n, c). n \<noteq> f) (map (\<lambda>(n, c). if n = f then (n, g c) else (n, c)) xs)
   = filter (\<lambda>(n, c). n \<noteq> f) xs"
  by (induction xs) auto

lemma demo_archive_facts [simp]:
  "length demo_archive = 200010" "take 2 demo_archive = ''PK''"
  "take 12 demo_archive \<noteq> ''PK-truncated''"
  by (simp_all add: demo_archive_def)

lemma truncated_archive_facts [simp]:
  "length truncated_archive = 200012" "take 2 truncated_archive = ''PK''"
  "take 12 truncated_archive = ''PK-truncated''"
  by (simp_all add: truncated_archive_def)

subsection \<open>The steps of a fetch\<close>

lemma http_get_world:
  "http_get ev rq w = (r, w') \<Longrightarrow> w' = w\<lparr>net_log := net_log w @ [rq]\<rparr>"
  by (auto simp: http_get_def)

lemma list_artifacts_world:
  "list_artifacts ev st w = (r, w1) \<Longrightarrow> w1 = w\<lparr>net_log := net_log w @ [listing_request st]\<rparr>"
  by (auto simp: list_artifacts_def http_get_def split: sum.splits)

lemma download_world:
  "download ev st a w = (r, w1) \<Longrightarrow> w1 = w\<lparr>net_log := net_log w @ [download_request st a]\<rparr>"
  by (auto simp: download_def http_get_def split: sum.splits)

lemma mkdir_p_other [simp]:
  "net_log (mkdir_p p w) = net_log w" "temp_files (mkdir_p p w) = temp_files w"
  by (auto simp: mkdir_p_def split: option.splits)

lemma unpack_other:
  "unpack ev f p w = (r, w') \<Longrightarrow> net_log w' = net_log w \<and> temp_files w' = temp_files w"
  by (auto simp: unpack_def split: prod.splits option.splits)

lemma with_body_log:
  "with_body ev st a f w = (r, w3) \<Longrightarrow> net_log w3 = net_log w @ [download_request st a]"
  by (auto simp: with_body_def temp_write_def split: prod.splits sum.splits
      dest!: download_world unpack_other)

lemma with_body_temp:
  "with_body ev st a f w = (r, w3) \<Longrightarrow>
   filter (\<lambda>(n, c). n \<noteq> f) (temp_files w3) = filter (\<lambda>(n, c). n \<noteq> f) (temp_files w)"
  by (auto simp: with_body_def temp_write_def filter_after_write split: prod.splits sum.splits
      dest!: download_world unpack_other)

lemma temp_cycle:
  assumes "NamedTemporaryFile w1 = (f, w2)" and "with_body ev st a f w2 = (r, w3)"
  shows "temp_files (temp_close f w3) = temp_files w1"
proof -
  from assms(1) have f: "f = fresh_name (temp_files w1)"
    and w2: "temp_files w2 = (f, [], []) # temp_files w1"
    by (auto simp: NamedTemporaryFile_def)
  have "temp_files (temp_close f w3) = filter (\<lambda>(n, c). n \<noteq> f) (temp_files w3)"
    by (simp add: temp_close_def)
  also have "\<dots> = filter (\<lambda>(n, c). n \<noteq> f) (temp_files w2)"
    using assms(2) by (rule with_body_temp)
  also have "\<dots> = filter (\<lambda>(n, c). n \<noteq> f) (temp_files w1)"
    by (simp add: w2)
  also have "\<dots> = temp_files w1"
    unfolding f by (rule filter_fresh_name)
  finally show ?thesis .
qed

lemma fetch_artifact_when_downloaded:
  "artifact_downloaded st \<Longrightarrow> fetch_artifact ev st w = (Inr (), st, w)"
  by (simp add: fetch_artifact_def)

lemma fetch_artifact_failure_state:
  "fetch_artifact ev st w = (Inl e, st', w') \<Longrightarrow> st' = st \<and> \<not> artifact_downloaded st"
  by (auto simp: fetch_artifact_def split: if_splits prod.splits sum.splits)

lemma fetch_artifact_success_state:
  "fetch_artifact ev st w = (Inr u, st', w') \<Longrightarrow> \<not> artifact_downloaded st \<Longrightarrow>
   st' = st\<lparr>artifact_downloaded := True, store_root := Some (path st)\<rparr>"
  by (auto simp: fetch_artifact_def super_init_def split: if_splits prod.splits sum.splits)

lemma fetch_artifact_temp_files:
  "fetch_artifact ev st w = (r, st', w') \<Longrightarrow> temp_files w' = temp_files w"
  by (auto simp: fetch_artifact_def split: if_splits prod.splits sum.splits
      dest!: list_artifacts_world dest: temp_cycle)

lemma fetch_artifact_log_prefix:
  "\<not> artifact_downloaded st \<Longrightarrow> fetch_artifact ev st w = (r, st', w') \<Longrightarrow>
   \<exists>rest. net_log w' = net_log w @ listing_request st # rest"
  by (auto simp: fetch_artifact_def temp_close_def NamedTemporaryFile_def
      split: if_splits prod.splits sum.splits
      dest!: list_artifacts_world with_body_log)

lemma temp_read_written:
  "temp_files w = (f, [], []) # rest \<Longrightarrow>
   temp_read f (mkdir_p p (temp_write bs f body w)) = (if length body \<le> bs then [] else body)"
  by (simp add: temp_read_def temp_write_def buffered_write_def)

lemma dirs_http_get: "http_get ev rq w = (r, w') \<Longrightarrow> dirs w' = dirs w"
  by (auto simp: http_get_def)

lemma with_body_success:
  assumes "with_body ev st a f w = (Inr u, w3)" and "temp_files w = (f, [], []) # rest"
  shows "\<exists>res body.
           requests_get ev (net_log w) (download_request st a) = Inr res \<and>
           raise_for_status res = Inr () \<and> content res = Inr body \<and>
           unpack_archive ev (if length body \<le> buffer_size ev then [] else body)
             (path st) (dirs (mkdir_p (path st) w)) = (None, dirs w3)"
proof -
  from assms(1) obtain res w1 body where
    d: "download ev st a w = (Inr res, w1)" and c: "content res = Inr body" and
    u: "unpack ev f (path st) (mkdir_p (path st) (temp_write (buffer_size ev) f body w1)) = (Inr u, w3)"
    by (auto simp: with_body_def split: prod.splits sum.splits)
  from d have w1: "w1 = w\<lparr>net_log := net_log w @ [download_request st a]\<rparr>"
    by (rule download_world)
  from d have g: "requests_get ev (net_log w) (download_request st a) = Inr res"
    and s: "raise_for_status res = Inr ()"
    by (auto simp: download_def http_get_def split: sum.splits)
  have t: "temp_files w1 = (f, [], []) # rest" by (simp add: w1 assms(2))
  have r: "temp_read f (mkdir_p (path st) (temp_write (buffer_size ev) f body w1))
             = (if length body \<le> buffer_size ev then [] else body)"
    using temp_read_written [OF t] by simp
  have dd: "dirs (mkdir_p (path st) (temp_write (buffer_size ev) f body w1))
              = dirs (mkdir_p (path st) w)"
    by (simp add: w1 mkdir_p_def temp_write_def split: option.splits)
  from u have "unpack_archive ev (if length body \<le> buffer_size ev then [] else body) (path st) (dirs (mkdir_p (path st) w)) = (None, dirs w3)"
    unfolding unpack_def r dd by (auto split: prod.splits option.splits)
  with g s c show ?thesis by blast
qed

lemma fetch_artifact_success:
  assumes "fetch_artifact ev st w = (Inr u, st', w')" and "\<not> artifact_downloaded st"
  shows "\<exists>artifacts a res body.
           fst (list_artifacts ev st w) = Inr artifacts \<and>
           select_artifact (artifact_name st) artifacts = Inr a \<and>
           requests_get ev (net_log w @ [listing_request st]) (download_request st a) = Inr res \<and>
           raise_for_status res = Inr () \<and> content res = Inr body \<and>
           unpack_archive ev (if length body \<le> buffer_size ev then [] else body)
             (path st) (dirs (mkdir_p (path st) w)) = (None, dirs w')"
proof -
  from assms obtain artifacts w1 a f w2 w3 where
    l: "list_artifacts ev st w = (Inr artifacts, w1)" and
    s: "select_artifact (artifact_name st) artifacts = Inr a" and
    n: "NamedTemporaryFile w1 = (f, w2)" and
    b: "with_body ev st a f w2 = (Inr u, w3)" and
    w': "w' = temp_close f w3"
    by (auto simp: fetch_artifact_def split: if_splits prod.splits sum.splits)
  from l have w1: "w1 = w\<lparr>net_log := net_log w @ [listing_request st]\<rparr>"
    by (rule list_artifacts_world)
  from n have w2: "w2 = w1\<lparr>temp_files := (f, [], []) # temp_files w1\<rparr>"
    by (auto simp: NamedTemporaryFile_def)
  have t: "temp_files w2 = (f, [], []) # temp_files w1" by (simp add: w2)
  from with_body_success [OF b t] obtain res body where
    g: "requests_get ev (net_log w2) (download_request st a) = Inr res" and
    r: "raise_for_status res = Inr ()" and c: "content res = Inr body" and
    x: "unpack_archive ev (if length body \<le> buffer_size ev then [] else body) (path st) (dirs (mkdir_p (path st) w2)) = (None, dirs w3)"
    by blast
  have "net_log w2 = net_log w @ [listing_request st]" by (simp add: w2 w1)
  moreover have "dirs (mkdir_p (path st) w2) = dirs (mkdir_p (path st) w)"
    by (simp add: w2 w1 mkdir_p_def split: option.splits)
  moreover have "dirs w' = dirs w3" by (simp add: w' temp_close_def)
  ultimately show ?thesis using l s g r c x by auto
qed


lemma fetch_artifact_state_cases:
  "fetch_artifact ev st w = (r, st', w') \<Longrightarrow>
   st' = st \<or> st' = st\<lparr>artifact_downloaded := True, store_root := Some (path st)\<rparr>"
  by (auto simp: fetch_artifact_def super_init_def split: if_splits prod.splits sum.splits)

lemma fetch_state_cases:
  "fetch ev st w k = (r, st', w') \<Longrightarrow>
   st' = st \<or> st' = st\<lparr>artifact_downloaded := True, store_root := Some (path st)\<rparr>"
  by (auto simp: fetch_def split: prod.splits sum.splits option.splits
      dest: fetch_artifact_state_cases)

lemma do_call_state_cases:
  "do_call ev c st w = (r, st', w') \<Longrightarrow>
   st' = st \<or> st' = st\<lparr>artifact_downloaded := True, store_root := Some (path st)\<rparr>"
  by (cases c)
     (auto simp: save_def move_def delete_def split: prod.splits sum.splits
      dest: fetch_state_cases)

lemma do_call_keeps:
  assumes "do_call ev c st w = (r, st', w')"
  shows "path st' = path st" and "consistent st \<Longrightarrow> consistent st'"
    and "artifact_downloaded st \<Longrightarrow> artifact_downloaded st'"
  using do_call_state_cases [OF assms] by (auto simp: consistent_def)

lemma run_keeps:
  "run ev cs st w = (rs, st', w') \<Longrightarrow>
   path st' = path st \<and> (consistent st \<longrightarrow> consistent st') \<and>
   (artifact_downloaded st \<longrightarrow> artifact_downloaded st')"
proof (induction cs arbitrary: st w rs)
  case Nil
  then show ?case by simp
next
  case (Cons c cs)
  obtain r st1 w1 where c: "do_call ev c st w = (r, st1, w1)" by (cases "do_call ev c st w")
  obtain rs1 where rest: "run ev cs st1 w1 = (rs1, st', w')"
    using Cons.prems c by (auto split: prod.splits)
  from Cons.IH [OF rest] do_call_keeps [OF c] show ?case by simp
qed






subsection \<open>Facts used by several claims\<close>

lemma select_artifact_some:
  "matching n artifacts \<noteq> [] \<Longrightarrow>
   select_artifact n artifacts = Inr (last (sort_key created_at (matching n artifacts)))"
  by (simp add: select_artifact_def Let_def) (metis length_sort length_0_conv)

lemma fetch_artifact_log_selected:
  assumes "\<not> artifact_downloaded st" and "fst (list_artifacts ev st w) = Inr artifacts"
    and "select_artifact (artifact_name st) artifacts = Inr a"
  shows "net_log (snd (snd (fetch_artifact ev st w)))
         = net_log w @ [listing_request st, download_request st a]"
proof -
  obtain w1 where l: "list_artifacts ev st w = (Inr artifacts, w1)"
    using assms(2) by (cases "list_artifacts ev st w") auto
  from l have w1: "w1 = w\<lparr>net_log := net_log w @ [listing_request st]\<rparr>"
    by (rule list_artifacts_world)
  obtain f w2 where n: "NamedTemporaryFile w1 = (f, w2)" by (cases "NamedTemporaryFile w1")
  obtain r w3 where b: "with_body ev st a f w2 = (r, w3)" by (cases "with_body ev st a f w2")
  from n have "net_log w2 = net_log w1" by (auto simp: NamedTemporaryFile_def)
  with with_body_log [OF b] w1
  have "net_log w3 = net_log w @ [listing_request st, download_request st a]" by simp
  then show ?thesis
    using assms(1,3) l n b by (cases r) (simp_all add: fetch_artifact_def temp_close_def)
qed

lemma do_call_sets_flag:
  assumes "do_call ev c st w = (r, st', w')" and "\<not> artifact_downloaded st"
    and "artifact_downloaded st'"
  shows "(\<exists>k. c = Fetch k) \<and> fst (fetch_artifact ev st w) = Inr ()"
proof (cases c)
  case (Fetch k)
  obtain rS stS wS where f: "fetch_artifact ev st w = (rS, stS, wS)"
    by (cases "fetch_artifact ev st w")
  have "st' = stS"
    using assms(1) Fetch f by (auto simp: fetch_def split: sum.splits option.splits)
  with assms(2,3) f have "rS = Inr ()"
    by (cases rS) (auto dest: fetch_artifact_failure_state)
  with Fetch f show ?thesis by simp
next
  case (Save k v)
  with assms show ?thesis by (simp add: save_def)
next
  case (Move k v)
  with assms show ?thesis by (simp add: move_def)
next
  case (Delete k v)
  with assms show ?thesis by (simp add: delete_def)
qed






lemma with_body_failure:
  assumes "with_body ev st a f w = (Inl e, w3)" and "temp_files w = (f, [], []) # rest"
  shows "dirs w3 = dirs w \<or>
         (\<exists>res body.
           requests_get ev (net_log w) (download_request st a) = Inr res \<and>
           raise_for_status res = Inr () \<and> content res = Inr body \<and>
           unpack_archive ev (if length body \<le> buffer_size ev then [] else body)
             (path st) (dirs (mkdir_p (path st) w)) = (Some e, dirs w3))"
proof (cases "download ev st a w")
  case (Pair r w1)
  from Pair have w1: "w1 = w\<lparr>net_log := net_log w @ [download_request st a]\<rparr>"
    by (rule download_world)
  show ?thesis
  proof (cases r)
    case (Inl e0)
    with assms(1) Pair w1 show ?thesis by (auto simp: with_body_def)
  next
    case (Inr res)
    from Pair Inr have g: "requests_get ev (net_log w) (download_request st a) = Inr res"
      and s: "raise_for_status res = Inr ()"
      by (auto simp: download_def http_get_def split: sum.splits)
    show ?thesis
    proof (cases "content res")
      case (Inl e1)
      with assms(1) Pair Inr w1 show ?thesis by (auto simp: with_body_def)
    next
      case c: (Inr body)
      from assms(1) Pair Inr c
      have u: "unpack ev f (path st) (mkdir_p (path st) (temp_write (buffer_size ev) f body w1)) = (Inl e, w3)"
        by (simp add: with_body_def)
      have t: "temp_files w1 = (f, [], []) # rest" by (simp add: w1 assms(2))
      have r: "temp_read f (mkdir_p (path st) (temp_write (buffer_size ev) f body w1))
             = (if length body \<le> buffer_size ev then [] else body)"
        using temp_read_written [OF t] by simp
      have dd: "dirs (mkdir_p (path st) (temp_write (buffer_size ev) f body w1))
              = dirs (mkdir_p (path st) w)"
        by (simp add: w1 mkdir_p_def temp_write_def split: option.splits)
      from u have "unpack_archive ev (if length body \<le> buffer_size ev then [] else body) (path st) (dirs (mkdir_p (path st) w)) = (Some e, dirs w3)"
        unfolding unpack_def r dd by (auto split: prod.splits option.splits)
      with g s c show ?thesis by blast
    qed
  qed
qed

lemma fetch_artifact_failure_dirs:
  assumes "fetch_artifact ev st w = (Inl e, st', w')"
  shows "dirs w' = dirs w \<or>
         (\<exists>artifacts a res body.
            fst (list_artifacts ev st w) = Inr artifacts \<and>
            select_artifact (artifact_name st) artifacts = Inr a \<and>
            requests_get ev (net_log w @ [listing_request st]) (download_request st a) = Inr res \<and>
            raise_for_status res = Inr () \<and> content res = Inr body \<and>
            unpack_archive ev (if length body \<le> buffer_size ev then [] else body)
              (path st) (dirs (mkdir_p (path st) w)) = (Some e, dirs w'))"
proof -
  from fetch_artifact_failure_state [OF assms] have n: "\<not> artifact_downloaded st" by simp
  obtain r1 w1 where l: "list_artifacts ev st w = (r1, w1)" by (cases "list_artifacts ev st w")
  from l have w1: "w1 = w\<lparr>net_log := net_log w @ [listing_request st]\<rparr>"
    by (rule list_artifacts_world)
  show ?thesis
  proof (cases r1)
    case (Inl e0)
    with assms n l w1 show ?thesis by (auto simp: fetch_artifact_def)
  next
    case (Inr artifacts)
    show ?thesis
    proof (cases "select_artifact (artifact_name st) artifacts")
      case (Inl e1)
      with assms n l Inr w1 show ?thesis by (auto simp: fetch_artifact_def)
    next
      case s: (Inr a)
      obtain f w2 where nt: "NamedTemporaryFile w1 = (f, w2)" by (cases "NamedTemporaryFile w1")
      then have w2: "w2 = w1\<lparr>temp_files := (f, [], []) # temp_files w1\<rparr>"
        by (auto simp: NamedTemporaryFile_def)
      obtain r3 w3 where b: "with_body ev st a f w2 = (r3, w3)" by (cases "with_body ev st a f w2")
      from assms n l Inr s nt b have r3: "r3 = Inl e" and w': "w' = temp_close f w3"
        by (auto simp: fetch_artifact_def split: sum.splits)
      have t: "temp_files w2 = (f, [], []) # temp_files w1" by (simp add: w2)
      have lg: "net_log w2 = net_log w @ [listing_request st]" by (simp add: w2 w1)
      have d2: "dirs w2 = dirs w" by (simp add: w2 w1)
      have dm: "dirs (mkdir_p (path st) w2) = dirs (mkdir_p (path st) w)"
        by (simp add: w2 w1 mkdir_p_def split: option.splits)
      have d': "dirs w' = dirs w3" by (simp add: w' temp_close_def)
      from with_body_failure [OF b [unfolded r3] t]
      show ?thesis
        unfolding lg d2 dm d' using l Inr s by auto
    qed
  qed
qed

lemma fetch_world:
  "snd (snd (fetch ev st w k)) = snd (snd (fetch_artifact ev st w))"
  by (simp add: fetch_def split: prod.splits sum.splits option.splits)

lemma read_log_prefix:
  assumes "\<not> artifact_downloaded st"
  shows "\<exists>rest. net_log (snd (snd (fetch ev st w k))) = net_log w @ listing_request st # rest"
proof -
  obtain r st' w' where f: "fetch_artifact ev st w = (r, st', w')"
    by (cases "fetch_artifact ev st w")
  from fetch_artifact_log_prefix [OF assms f] show ?thesis
    by (simp add: fetch_world f)
qed

lemma read_failure:
  assumes "\<not> artifact_downloaded st" and "fetch ev st w k = (Inl e, st', w')"
  shows "fetch_artifact ev st w = (Inl e, st', w')"
proof -
  obtain r s1 w1 where f: "fetch_artifact ev st w = (r, s1, w1)"
    by (cases "fetch_artifact ev st w")
  show ?thesis
  proof (cases r)
    case (Inl e1)
    with assms(2) f show ?thesis by (simp add: fetch_def)
  next
    case (Inr u)
    from fetch_artifact_success_state [OF f [unfolded Inr] assms(1)]
    have "store_root s1 = Some (path st)" by simp
    with assms(2) f Inr show ?thesis by (simp add: fetch_def)
  qed
qed


section \<open>The claims\<close>

text \<open>
  C1. For every key and value and in every state of the object, before or after a fetch,
  \<^verbatim>\<open>save\<close>, \<^verbatim>\<open>move\<close> and \<^verbatim>\<open>delete\<close> raise the read-only error, a \<^verbatim>\<open>RuntimeError\<close> whose message
  tells the caller to wrap the database with \<^verbatim>\<open>ReadOnlyDatabase\<close>; the object and the world
  (requests issued, directories, temporary files) are left exactly as they were.
\<close>

theorem mutators_raise_read_only:
  "save st w key val = (Inl (RuntimeError read_only_msg), st, w) \<and>
   move st w key val = (Inl (RuntimeError read_only_msg), st, w) \<and>
   delete st w key val = (Inl (RuntimeError read_only_msg), st, w) \<and>
   do_call ev (Save key val) st w = (Raised (RuntimeError read_only_msg), st, w) \<and>
   do_call ev (Move key val) st w = (Raised (RuntimeError read_only_msg), st, w) \<and>
   do_call ev (Delete key val) st w = (Raised (RuntimeError read_only_msg), st, w) \<and>
   read_only_msg =
     ''This database is read-only. Please wrap this class with ReadOnlyDatabase, i.e. ReadOnlyDatabase(GitHubArtifactsDatabase(...)).''"
  by (simp add: save_def move_def delete_def read_only_msg_def)




text \<open>
  C3. When the listing succeeds and holds at least one descriptor named as configured,
  the selection returns a descriptor of the listing with that name whose \<open>created_at\<close> is
  greatest among the descriptors with that name, and the request that follows the listing
  is the download of its \<open>archive_download_url\<close>. Among the descriptors with that name and
  that \<open>created_at\<close> it is the last of the listing, so the order of the listing decides
  ties. For the listing of two descriptors \<^verbatim>\<open>db\<close> created at \<open>t1 < t2\<close> and one descriptor
  \<^verbatim>\<open>other\<close>, the one created at \<open>t2\<close> is selected.
\<close>

theorem selects_latest_matching:
  assumes "\<not> artifact_downloaded st"
    and "fst (list_artifacts ev st w) = Inr artifacts"
    and "matching (artifact_name st) artifacts \<noteq> []"
  shows "(\<exists>a. select_artifact (artifact_name st) artifacts = Inr a \<and>
              a \<in> set artifacts \<and> name a = artifact_name st \<and>
              (\<forall>b \<in> set artifacts. name b = artifact_name st \<longrightarrow> created_at b \<le> created_at a) \<and>
              a = last (filter (\<lambda>b. name b = artifact_name st \<and> created_at b = created_at a) artifacts) \<and>
              net_log (snd (snd (fetch_artifact ev st w)))
                = net_log w @ [listing_request st, download_request st a] \<and>
              url (download_request st a) = archive_download_url a) \<and>
         (t1 < t2 \<longrightarrow>
            select_artifact ''db''
              [\<lparr>name = ''db'', created_at = t1, archive_download_url = u1\<rparr>,
               \<lparr>name = ''db'', created_at = t2, archive_download_url = u2\<rparr>,
               \<lparr>name = ''other'', created_at = t3, archive_download_url = u3\<rparr>]
            = Inr \<lparr>name = ''db'', created_at = t2, archive_download_url = u2\<rparr>)"
proof
  let ?m = "matching (artifact_name st) artifacts"
  let ?a = "last (sort_key created_at ?m)"
  have sel: "select_artifact (artifact_name st) artifacts = Inr ?a"
    using assms(3) by (rule select_artifact_some)
  have mem: "?a \<in> set ?m" using assms(3) by (rule last_sort_key_mem)
  have top: "\<forall>b \<in> set artifacts. name b = artifact_name st \<longrightarrow> created_at b \<le> created_at ?a"
    by (auto intro!: last_sort_key_greatest simp: matching_def)
  have log: "net_log (snd (snd (fetch_artifact ev st w)))
               = net_log w @ [listing_request st, download_request st ?a]"
    using assms(1,2) sel by (rule fetch_artifact_log_selected)
  have tie: "?a = last (filter (\<lambda>b. name b = artifact_name st \<and> created_at b = created_at ?a)
                         artifacts)"
    using last_sort_key_stable [OF assms(3), of created_at]
    by (simp add: matching_def conj_commute)
  have "url (download_request st ?a) = archive_download_url ?a"
    by (simp add: download_request_def)
  with sel mem top log tie
  show "\<exists>a. select_artifact (artifact_name st) artifacts = Inr a \<and>
              a \<in> set artifacts \<and> name a = artifact_name st \<and>
              (\<forall>b \<in> set artifacts. name b = artifact_name st \<longrightarrow> created_at b \<le> created_at a) \<and>
              a = last (filter (\<lambda>b. name b = artifact_name st \<and> created_at b = created_at a) artifacts) \<and>
              net_log (snd (snd (fetch_artifact ev st w)))
                = net_log w @ [listing_request st, download_request st a] \<and>
              url (download_request st a) = archive_download_url a"
    by (intro exI [of _ ?a]) (simp add: matching_def)
next
  show "t1 < t2 \<longrightarrow>
            select_artifact ''db''
              [\<lparr>name = ''db'', created_at = t1, archive_download_url = u1\<rparr>,
               \<lparr>name = ''db'', created_at = t2, archive_download_url = u2\<rparr>,
               \<lparr>name = ''other'', created_at = t3, archive_download_url = u3\<rparr>]
            = Inr \<lparr>name = ''db'', created_at = t2, archive_download_url = u2\<rparr>"
    by (auto simp: select_artifact_def matching_def)
qed

text \<open>
  The hypotheses of C3 hold for the concrete service, where the second of the two \<^verbatim>\<open>db\<close>
  descriptors is downloaded.
\<close>

theorem selects_latest_matching_witness:
  "\<not> artifact_downloaded demo_db \<and>
   fst (list_artifacts (demo_env good_service) demo_db demo_world) = Inr demo_artifacts \<and>
   matching (artifact_name demo_db) demo_artifacts \<noteq> [] \<and>
   (''2023-05-01T10:00:00Z'' :: string) < ''2023-05-02T10:00:00Z'' \<and>
   select_artifact ''db'' demo_artifacts
     = Inr \<lparr>name = ''db'', created_at = ''2023-05-02T10:00:00Z'',
            archive_download_url = ''https://example.org/2.zip''\<rparr> \<and>
   map url (net_log (snd (snd (fetch_artifact (demo_env good_service) demo_db demo_world))))
     = [''https://api.github.com/repos/user/repo/actions/artifacts'', ''https://example.org/2.zip'']"
proof -
  have h1: "\<not> artifact_downloaded demo_db" by (simp add: demo_db_def init_def)
  have h2: "fst (list_artifacts (demo_env good_service) demo_db demo_world) = Inr demo_artifacts"
    by (simp add: model_defs demo_defs)
  have h3: "matching (artifact_name demo_db) demo_artifacts \<noteq> []"
    by (simp add: model_defs demo_defs)
  have h4: "(''2023-05-01T10:00:00Z'' :: string) < ''2023-05-02T10:00:00Z''" by simp
  from selects_latest_matching [OF h1 h2 h3, of "''2023-05-01T10:00:00Z''" "''2023-05-02T10:00:00Z''"
      "''https://example.org/1.zip''" "''https://example.org/2.zip''"
      "''2023-05-03T10:00:00Z''" "''https://example.org/3.zip''"] h4
  have sel: "select_artifact ''db'' demo_artifacts
     = Inr \<lparr>name = ''db'', created_at = ''2023-05-02T10:00:00Z'',
            archive_download_url = ''https://example.org/2.zip''\<rparr>"
    by (simp add: demo_artifacts_def)
  have log: "map url (net_log (snd (snd (fetch_artifact (demo_env good_service) demo_db demo_world))))
     = [''https://api.github.com/repos/user/repo/actions/artifacts'', ''https://example.org/2.zip'']"
    by (simp add: model_defs demo_defs)
  from h1 h2 h3 h4 sel log show ?thesis by blast
qed

text \<open>
  C4. The flag is false after construction. A fetch that raises leaves the object as it
  was, flag false, and the next fetch starts again with the listing request; so does the
  next read: when a read on an object whose flag is false raises, the object is as it was,
  the flag is false, and the read that follows, for any key and against any service,
  issues the listing request first. A fetch that returns has the flag set; when it was
  not set before, the listing, the selection, the download, the reading of the body and
  the extraction (of the bytes of the body that had reached the file) have all succeeded,
  and setting the flag (with the initialisation of the inherited store) is the only
  change to the object. A call can set the flag only if it is a read whose fetch
  returned. Once set, the flag stays set through every sequence of calls.
\<close>

theorem downloaded_flag_lifecycle:
  "\<not> artifact_downloaded (init getenv own rep art p) \<and>
   (fetch_artifact ev st w = (Inl e, st', w') \<longrightarrow>
      st' = st \<and> \<not> artifact_downloaded st' \<and>
      (\<exists>rest. net_log (snd (snd (fetch_artifact ev' st' w')))
                = net_log w' @ listing_request st' # rest)) \<and>
   (\<not> artifact_downloaded stF \<and> fetch evF stF wF kF = (Inl eF, stF', wF') \<longrightarrow>
      stF' = stF \<and> \<not> artifact_downloaded stF' \<and>
      fst (fetch_artifact evF stF wF) = Inl eF \<and>
      (\<exists>rest. net_log (snd (snd (fetch evG stF' wF' kG)))
                = net_log wF' @ listing_request stF' # rest)) \<and>
   (fetch_artifact evS stS wS = (Inr u, stS', wS') \<longrightarrow>
      artifact_downloaded stS' \<and>
      (\<not> artifact_downloaded stS \<longrightarrow>
         stS' = stS\<lparr>artifact_downloaded := True, store_root := Some (path stS)\<rparr> \<and>
         (\<exists>artifacts a res body.
            fst (list_artifacts evS stS wS) = Inr artifacts \<and>
            select_artifact (artifact_name stS) artifacts = Inr a \<and>
            requests_get evS (net_log wS @ [listing_request stS]) (download_request stS a) = Inr res \<and>
            raise_for_status res = Inr () \<and> content res = Inr body \<and>
            unpack_archive evS (if length body \<le> buffer_size evS then [] else body)
              (path stS) (dirs (mkdir_p (path stS) wS)) = (None, dirs wS')))) \<and>
   (\<not> artifact_downloaded stC \<and> do_call evC c stC wC = (rC, stC', wC') \<and> artifact_downloaded stC' \<longrightarrow>
      (\<exists>k. c = Fetch k) \<and> fst (fetch_artifact evC stC wC) = Inr ()) \<and>
   (artifact_downloaded stR \<and> run evR cs stR wR = (rs, stR', wR') \<longrightarrow> artifact_downloaded stR')"
proof (intro conjI impI)
  show "\<not> artifact_downloaded (init getenv own rep art p)" by (simp add: init_def)
next
  assume f: "fetch_artifact ev st w = (Inl e, st', w')"
  from fetch_artifact_failure_state [OF f] show "st' = st" by simp
  from fetch_artifact_failure_state [OF f] show n: "\<not> artifact_downloaded st'" by simp
  obtain r0 s0 x0 where g: "fetch_artifact ev' st' w' = (r0, s0, x0)"
    by (cases "fetch_artifact ev' st' w'")
  from fetch_artifact_log_prefix [OF n g]
  show "\<exists>rest. net_log (snd (snd (fetch_artifact ev' st' w')))
                = net_log w' @ listing_request st' # rest"
    by (simp add: g)
next
  assume a: "\<not> artifact_downloaded stF \<and> fetch evF stF wF kF = (Inl eF, stF', wF')"
  from read_failure [of stF evF wF kF eF stF' wF'] a
  have f: "fetch_artifact evF stF wF = (Inl eF, stF', wF')" by simp
  then show "fst (fetch_artifact evF stF wF) = Inl eF" by simp
  from fetch_artifact_failure_state [OF f] show "stF' = stF" by simp
  from fetch_artifact_failure_state [OF f] show n: "\<not> artifact_downloaded stF'" by simp
  from read_log_prefix [OF n, of evG wF' kG]
  show "\<exists>rest. net_log (snd (snd (fetch evG stF' wF' kG)))
                = net_log wF' @ listing_request stF' # rest" .
next
  assume f: "fetch_artifact evS stS wS = (Inr u, stS', wS')"
  then show "artifact_downloaded stS'"
    by (cases "artifact_downloaded stS")
       (auto simp: fetch_artifact_when_downloaded dest: fetch_artifact_success_state)
  assume n: "\<not> artifact_downloaded stS"
  from f n show "stS' = stS\<lparr>artifact_downloaded := True, store_root := Some (path stS)\<rparr>"
    by (rule fetch_artifact_success_state)
  from f n show "\<exists>artifacts a res body.
            fst (list_artifacts evS stS wS) = Inr artifacts \<and>
            select_artifact (artifact_name stS) artifacts = Inr a \<and>
            requests_get evS (net_log wS @ [listing_request stS]) (download_request stS a) = Inr res \<and>
            raise_for_status res = Inr () \<and> content res = Inr body \<and>
            unpack_archive evS (if length body \<le> buffer_size evS then [] else body)
              (path stS) (dirs (mkdir_p (path stS) wS)) = (None, dirs wS')"
    by (rule fetch_artifact_success)
next
  assume a: "\<not> artifact_downloaded stC \<and> do_call evC c stC wC = (rC, stC', wC') \<and>
             artifact_downloaded stC'"
  then have "(\<exists>k. c = Fetch k) \<and> fst (fetch_artifact evC stC wC) = Inr ()"
    using do_call_sets_flag [of evC c stC wC rC stC' wC'] by simp
  then show "\<exists>k. c = Fetch k" and "fst (fetch_artifact evC stC wC) = Inr ()" by simp_all
next
  assume "artifact_downloaded stR \<and> run evR cs stR wR = (rs, stR', wR')"
  then show "artifact_downloaded stR'" using run_keeps [of evR cs stR wR rs stR' wR'] by simp
qed

text \<open>
  The hypotheses of C4 hold against a service whose first answer is a connection failure:
  the first read raises and leaves the flag false, the second read starts again with the
  listing, downloads an archive longer than the write buffer and sets the flag, and the
  flag stays set afterwards.
\<close>

theorem downloaded_flag_lifecycle_witness:
  "\<not> artifact_downloaded demo_db \<and>
   fetch (demo_env flaky_service) demo_db demo_world ''entry''
     = (Inl (RuntimeError listing_connect_msg), demo_db, demo_world_listed) \<and>
   fetch (demo_env flaky_service) demo_db demo_world_listed ''entry''
     = (Inr [demo_archive], demo_db_loaded, demo_world_loaded) \<and>
   net_log demo_world_loaded
     = net_log demo_world_listed
       @ [listing_request demo_db, download_request demo_db newest_db_artifact] \<and>
   fetch_artifact (demo_env flaky_service) demo_db demo_world
     = (Inl (RuntimeError listing_connect_msg), demo_db, demo_world_listed) \<and>
   fetch_artifact (demo_env flaky_service) demo_db demo_world_listed
     = (Inr (), demo_db_loaded, demo_world_loaded) \<and>
   artifact_downloaded demo_db_loaded \<and>
   run (demo_env flaky_service) [Save ''k'' ''v'', Fetch ''entry''] demo_db_loaded demo_world_loaded
     = ([Raised (RuntimeError read_only_msg), Values [demo_archive]],
        demo_db_loaded, demo_world_loaded)"
proof -
  let ?F = "demo_env flaky_service"
  have n: "\<not> artifact_downloaded demo_db" by (simp add: demo_db_def init_def)
  have x1: "fetch_artifact ?F demo_db demo_world
              = (Inl (RuntimeError listing_connect_msg), demo_db, demo_world_listed)"
    by (simp add: model_defs demo_defs flaky_service_def demo_db_loaded_def
        demo_world_listed_def demo_world_loaded_def)
  have x2: "fetch_artifact ?F demo_db demo_world_listed = (Inr (), demo_db_loaded, demo_world_loaded)"
    by (simp add: model_defs demo_defs flaky_service_def demo_db_loaded_def
        demo_world_listed_def demo_world_loaded_def)
  have f1: "fetch ?F demo_db demo_world ''entry''
              = (Inl (RuntimeError listing_connect_msg), demo_db, demo_world_listed)"
    by (simp add: fetch_def x1)
  have f2: "fetch ?F demo_db demo_world_listed ''entry''
              = (Inr [demo_archive], demo_db_loaded, demo_world_loaded)"
    by (simp add: fetch_def x2)
       (simp add: demo_defs flaky_service_def demo_db_loaded_def demo_world_listed_def
          demo_world_loaded_def)
  have c: "do_call ?F (Fetch ''entry'') demo_db demo_world_listed
             = (Values [demo_archive], demo_db_loaded, demo_world_loaded)"
    by (simp add: f2)
  have r: "run ?F [Save ''k'' ''v'', Fetch ''entry''] demo_db_loaded demo_world_loaded
     = ([Raised (RuntimeError read_only_msg), Values [demo_archive]],
        demo_db_loaded, demo_world_loaded)"
    by (simp add: model_defs demo_defs flaky_service_def demo_db_loaded_def
        demo_world_listed_def demo_world_loaded_def)
  have l: "net_log demo_world_loaded
     = net_log demo_world_listed
       @ [listing_request demo_db, download_request demo_db newest_db_artifact]"
    by (simp add: demo_world_listed_def demo_world_loaded_def demo_world_def)
  from downloaded_flag_lifecycle [where ev = ?F and st = demo_db and w = demo_world
      and e = "RuntimeError listing_connect_msg" and st' = demo_db and w' = demo_world_listed
      and ev' = ?F
      and evF = ?F and stF = demo_db and wF = demo_world and kF = "''entry''"
      and eF = "RuntimeError listing_connect_msg" and stF' = demo_db and wF' = demo_world_listed
      and evG = ?F and kG = "''entry''"
      and evS = ?F and stS = demo_db and wS = demo_world_listed and u = "()"
      and stS' = demo_db_loaded and wS' = demo_world_loaded
      and evC = ?F and c = "Fetch ''entry''" and stC = demo_db and wC = demo_world_listed
      and rC = "Values [demo_archive]" and stC' = demo_db_loaded and wC' = demo_world_loaded
      and evR = ?F and stR = demo_db_loaded and wR = demo_world_loaded
      and cs = "[Save ''k'' ''v'', Fetch ''entry'']"
      and rs = "[Raised (RuntimeError read_only_msg), Values [demo_archive]]"
      and stR' = demo_db_loaded and wR' = demo_world_loaded]
    n x1 x2 f1 c r
  have "artifact_downloaded demo_db_loaded" by simp
  with n x1 x2 f1 f2 l r show ?thesis by simp
qed

text \<open>
  C5. When no descriptor of a successful listing has the configured name, the code does
  not raise a descriptive error of its own: the \<^verbatim>\<open>[-1]\<close> on the empty sorted list raises
  \<^verbatim>\<open>IndexError\<close>, and \<^verbatim>\<open>_fetch_artifact\<close> lets it through unchanged. Shown for every
  listing without a matching name, and evaluated for a listing with one descriptor of
  another name and for the empty listing.
\<close>

theorem no_matching_artifact_index_error:
  "select_artifact n (filter (\<lambda>a. name a \<noteq> n) artifacts) = Inl (IndexError ''list index out of range'') \<and>
   fetch_artifact (demo_env (staged_service (Inr (listing_ok [other_artifact])) (Inr (archive_ok ''PK-archive''))))
       demo_db demo_world
     = (Inl (IndexError ''list index out of range''), demo_db, demo_world_listed) \<and>
   fetch_artifact (demo_env (staged_service (Inr (listing_ok [])) (Inr (archive_ok ''PK-archive''))))
       demo_db demo_world
     = (Inl (IndexError ''list index out of range''), demo_db, demo_world_listed) \<and>
   exn_type (IndexError ''list index out of range'') \<noteq> ''RuntimeError''"
proof -
  have "filter (\<lambda>a. name a = n) (filter (\<lambda>a. name a \<noteq> n) artifacts) = []"
    by (induction artifacts) auto
  then have "select_artifact n (filter (\<lambda>a. name a \<noteq> n) artifacts)
             = Inl (IndexError ''list index out of range'')"
    by (simp add: select_artifact_def matching_def)
  moreover have "fetch_artifact (demo_env (staged_service (Inr (listing_ok [other_artifact])) (Inr (archive_ok ''PK-archive''))))
       demo_db demo_world
     = (Inl (IndexError ''list index out of range''), demo_db, demo_world_listed)"
    by (simp add: model_defs demo_defs other_artifact_def demo_world_listed_def)
  moreover have "fetch_artifact (demo_env (staged_service (Inr (listing_ok [])) (Inr (archive_ok ''PK-archive''))))
       demo_db demo_world
     = (Inl (IndexError ''list index out of range''), demo_db, demo_world_listed)"
    by (simp add: model_defs demo_defs other_artifact_def demo_world_listed_def)
  ultimately show ?thesis by simp
qed




text \<open>
  C7, as stated, fails when the extraction fails. The directory \<^verbatim>\<open>ci\<close> does not exist
  before the fetch. With a body that is not a zip archive the fetch raises and the
  directory exists afterwards, created by \<^verbatim>\<open>mkdir_p\<close> before the extraction was tried;
  with an archive that breaks off, the fetch raises and the directory holds what had
  been written until then. (The first body stays in the write buffer, so the archive
  routine finds an empty file; the second is longer than the buffer.)
\<close>

theorem failed_extraction_touches_directory:
  "path demo_db = ''ci'' \<and> dirs demo_world ''ci'' = None \<and>
   fst (fetch_artifact
          (demo_env (staged_service (Inr (listing_ok demo_artifacts)) (Inr (archive_ok ''not a zip''))))
          demo_db demo_world) = Inl ReadError \<and>
   dirs (snd (snd (fetch_artifact
          (demo_env (staged_service (Inr (listing_ok demo_artifacts)) (Inr (archive_ok ''not a zip''))))
          demo_db demo_world))) ''ci'' = Some [] \<and>
   fst (fetch_artifact
          (demo_env (staged_service (Inr (listing_ok demo_artifacts)) (Inr (archive_ok truncated_archive))))
          demo_db demo_world) = Inl BadZipFile \<and>
   dirs (snd (snd (fetch_artifact
          (demo_env (staged_service (Inr (listing_ok demo_artifacts)) (Inr (archive_ok truncated_archive))))
          demo_db demo_world))) ''ci'' = Some [(''entry'', ''PK'')]"
  by (simp add: model_defs demo_defs)

text \<open>
  C7, amended. After a fetch that raises, the temporary file is gone, and the directories
  are as they were unless the failure is the extraction's: the listing, the selection,
  the download and the reading of the body had succeeded, \<^verbatim>\<open>mkdir_p\<close> had made sure the
  directory exists, and the directories are as the archive routine left them when it
  raised on the bytes of the body that had reached the file. So a connection failure or an error status on the listing or on the download,
  and a listing without a matching descriptor, leave the directory untouched.
\<close>

theorem failing_fetch_and_the_directory:
  assumes "fetch_artifact ev st w = (Inl e, st', w')"
  shows "temp_files w' = temp_files w \<and>
         (dirs w' = dirs w \<or>
          (\<exists>artifacts a res body.
             fst (list_artifacts ev st w) = Inr artifacts \<and>
             select_artifact (artifact_name st) artifacts = Inr a \<and>
             requests_get ev (net_log w @ [listing_request st]) (download_request st a) = Inr res \<and>
             raise_for_status res = Inr () \<and> content res = Inr body \<and>
             unpack_archive ev (if length body \<le> buffer_size ev then [] else body)
               (path st) (dirs (mkdir_p (path st) w)) = (Some e, dirs w') \<and>
             dirs (mkdir_p (path st) w) (path st) \<noteq> None))"
proof -
  have "dirs (mkdir_p (path st) w) (path st) \<noteq> None"
    by (simp add: mkdir_p_def split: option.splits)
  with fetch_artifact_temp_files [OF assms] fetch_artifact_failure_dirs [OF assms]
  show ?thesis by blast
qed

text \<open>
  The hypothesis of the amended C7 holds when the download is answered with a 404: the
  fetch raises, and temporary files and directories are as before.
\<close>

theorem failing_fetch_and_the_directory_witness:
  "fetch_artifact
     (demo_env (staged_service (Inr (listing_ok demo_artifacts)) (Inr (status_only 404))))
     demo_db demo_world
     = (Inl (RuntimeError http_error_msg), demo_db, demo_world_refused) \<and>
   temp_files demo_world_refused = temp_files demo_world \<and>
   dirs demo_world_refused = dirs demo_world"
proof -
  let ?E = "demo_env (staged_service (Inr (listing_ok demo_artifacts)) (Inr (status_only 404)))"
  have x: "fetch_artifact ?E demo_db demo_world
             = (Inl (RuntimeError http_error_msg), demo_db, demo_world_refused)"
    by (simp add: model_defs demo_defs demo_world_refused_def)
  have g: "requests_get ?E (net_log demo_world @ [listing_request demo_db]) rq
           = (if stream rq then Inr (status_only 404) else Inr (listing_ok demo_artifacts))" for rq
    by (simp add: demo_env_def staged_service_def)
  have s: "raise_for_status (status_only 404) = Inl (HTTPError 404)"
    by (simp add: raise_for_status_def status_only_def)
  from failing_fetch_and_the_directory [OF x]
  have "temp_files demo_world_refused = temp_files demo_world \<and>
        dirs demo_world_refused = dirs demo_world"
    by (auto simp: g s download_request_def)
  with x show ?thesis by simp
qed

text \<open>
  C8. With no \<^verbatim>\<open>GITHUB_TOKEN\<close> in the environment the token is \<^verbatim>\<open>None\<close>, and both requests
  still carry an \<^verbatim>\<open>Authorization\<close> header: its value is \<^verbatim>\<open>Bearer None\<close>. Shown for every
  object built without a token, and evaluated on the requests a fetch issues.
\<close>

theorem missing_token_sent_as_bearer_none:
  "token (init (\<lambda>v. None) own rep art p) = None \<and>
   map_of (headers (listing_request (init (\<lambda>v. None) own rep art p))) ''Authorization''
     = Some ''Bearer None'' \<and>
   map_of (headers (download_request (init (\<lambda>v. None) own rep art p) a)) ''Authorization''
     = Some ''Bearer None'' \<and>
   map (\<lambda>rq. map_of (headers rq) ''Authorization'')
       (net_log (snd (snd (fetch_artifact (demo_env good_service) demo_db demo_world))))
     = [Some ''Bearer None'', Some ''Bearer None'']"
  by (simp add: model_defs demo_defs)

text \<open>
  C9. The download request goes to the \<open>archive_download_url\<close> of the descriptor, streamed
  and with redirects followed, with the \<^verbatim>\<open>Accept\<close> and \<^verbatim>\<open>Authorization\<close> values of the
  listing request; the value of \<^verbatim>\<open>X-GitHub-Api-Version\<close> is not the same: the listing
  request sends it with a trailing blank, the download request without.
\<close>

theorem download_headers_differ_from_listing:
  "map_of (headers (listing_request st)) ''X-GitHub-Api-Version'' = Some ''2022-11-28 '' \<and>
   map_of (headers (download_request st a)) ''X-GitHub-Api-Version'' = Some ''2022-11-28'' \<and>
   headers (download_request st a) \<noteq> headers (listing_request st) \<and>
   map_of (headers (download_request st a)) ''Accept''
     = map_of (headers (listing_request st)) ''Accept'' \<and>
   map_of (headers (download_request st a)) ''Authorization''
     = map_of (headers (listing_request st)) ''Authorization'' \<and>
   url (download_request st a) = archive_download_url a \<and>
   stream (download_request st a) \<and> allow_redirects (download_request st a)"
  by (simp add: listing_request_def download_request_def)

text \<open>
  C10. With at least one descriptor of the configured name, the selected descriptor is the
  last of the matching descriptors sorted stably by \<open>created_at\<close>; no matching descriptor has
  a greater \<open>created_at\<close>, and among the matching descriptors that share its \<open>created_at\<close> it
  is the one that comes last in the listing. The comparison is the lexicographic order of
  the strings by character code. It is not a comparison of instants: of
  \<^verbatim>\<open>2023-01-01T00:30:00+02:00\<close> and \<^verbatim>\<open>2022-12-31T23:00:00Z\<close> the first is selected, although
  the second is the later instant.
\<close>

theorem selection_compares_strings_stably:
  assumes "matching n artifacts \<noteq> []"
  shows "(\<exists>a. select_artifact n artifacts = Inr a \<and>
             a = last (sort_key created_at (matching n artifacts)) \<and>
             (\<forall>b \<in> set (matching n artifacts). created_at b \<le> created_at a) \<and>
             a = last (filter (\<lambda>b. created_at b = created_at a) (matching n artifacts)) \<and>
             (\<forall>b. (created_at b < created_at a)
                  = ((created_at b, created_at a) \<in> lexord {(c, d). (of_char c :: nat) < of_char d}))) \<and>
         select_artifact ''db'' offset_artifacts
           = Inr \<lparr>name = ''db'', created_at = ''2023-01-01T00:30:00+02:00'',
                  archive_download_url = ''a''\<rparr>"
proof -
  let ?m = "matching n artifacts"
  let ?a = "last (sort_key created_at ?m)"
  have "select_artifact n artifacts = Inr ?a" using assms by (rule select_artifact_some)
  moreover have "\<forall>b \<in> set ?m. created_at b \<le> created_at ?a"
    by (auto intro: last_sort_key_greatest)
  moreover have "?a = last (filter (\<lambda>b. created_at b = created_at ?a) ?m)"
    using assms by (rule last_sort_key_stable)
  moreover have "\<forall>b. (created_at b < created_at ?a)
       = ((created_at b, created_at ?a) \<in> lexord {(c, d). (of_char c :: nat) < of_char d})"
    by (simp add: list_less_def less_char_def)
  moreover have "select_artifact ''db'' offset_artifacts
           = Inr \<lparr>name = ''db'', created_at = ''2023-01-01T00:30:00+02:00'',
                  archive_download_url = ''a''\<rparr>"
    by (simp add: select_artifact_def matching_def offset_artifacts_def)
  ultimately show ?thesis by blast
qed

text \<open>
  The hypothesis of C10 holds for a listing in which two matching descriptors share the
  greatest \<open>created_at\<close>: the later of the two is selected.
\<close>

theorem selection_compares_strings_stably_witness:
  "matching ''db'' tied_artifacts \<noteq> [] \<and>
   select_artifact ''db'' tied_artifacts
     = Inr \<lparr>name = ''db'', created_at = ''2023-05-02T10:00:00Z'', archive_download_url = ''second''\<rparr> \<and>
   last (filter (\<lambda>b. created_at b = ''2023-05-02T10:00:00Z'') (matching ''db'' tied_artifacts))
     = \<lparr>name = ''db'', created_at = ''2023-05-02T10:00:00Z'', archive_download_url = ''second''\<rparr>"
proof -
  have h: "matching ''db'' tied_artifacts \<noteq> []" by (simp add: matching_def tied_artifacts_def)
  have s: "select_artifact ''db'' tied_artifacts
     = Inr \<lparr>name = ''db'', created_at = ''2023-05-02T10:00:00Z'', archive_download_url = ''second''\<rparr>"
    by (simp add: select_artifact_def matching_def tied_artifacts_def)
  from selection_compares_strings_stably [OF h] s
  have "\<lparr>name = ''db'', created_at = ''2023-05-02T10:00:00Z'', archive_download_url = ''second''\<rparr>
        = last (filter (\<lambda>b. created_at b = ''2023-05-02T10:00:00Z'') (matching ''db'' tied_artifacts))"
    by auto
  with h s show ?thesis by simp
qed

end
